theory Spec2Isabelle
  imports Main
begin

section \<open>JavaScript values and browser storage\<close>

text \<open>
  The values that reach the client as JSON (permission payloads, live-update frames,
  batch objects), together with \<open>undefined\<close>. An object is the association list of its
  own properties, with distinct keys, as \<open>JSON.parse\<close> leaves them. Numbers are only
  compared, never computed with.
\<close>

datatype jsval =
    JUndefined
  | JNull
  | JBool bool
  | JNum int
  | JStr string
  | JArr "jsval list"
  | JObj "(string \<times> jsval) list"

text \<open>\<open>localStorage\<close>: \<open>getItem\<close> gives the stored string or \<open>null\<close> (\<open>None\<close>).\<close>

type_synonym storage = "string \<rightharpoonup> string"

definition getItem :: "storage \<Rightarrow> string \<Rightarrow> string option" where
  "getItem ls k = ls k"

definition removeItem :: "storage \<Rightarrow> string \<Rightarrow> storage" where
  "removeItem ls k = ls(k := None)"

text \<open>
  Truthiness of what \<open>getItem\<close> returns, as tested by \<open>if (token)\<close> and \<open>!token\<close>:
  \<open>null\<close> and the empty string are falsy.
\<close>

fun truthy_item :: "string option \<Rightarrow> bool" where
  "truthy_item None = False"
| "truthy_item (Some s) = (s \<noteq> [])"

section \<open>Permission store (PermissionContext)\<close>

text \<open>
  The three \<open>useState\<close> cells of \<open>PermissionProvider\<close>. \<open>permissions\<close> is \<open>null\<close>
  (\<open>None\<close>) or the object taken from \<open>data.permissions\<close>, which the permissions
  endpoint gives as \<open>{action: bool, ...}\<close>; the values under its keys are not
  restricted. \<open>role\<close> is \<open>null\<close> or whatever \<open>data.role\<close> held.
\<close>

record permission_store =
  permissions :: "(string \<times> jsval) list option"
  role :: jsval
  loading :: bool

definition initial_store :: permission_store where
  "initial_store = \<lparr>permissions = None, role = JNull, loading = True\<rparr>"

text \<open>
  How \<open>await api.get('/api/users/me/permissions')\<close> followed by the two reads
  \<open>data.permissions\<close> and \<open>data.role\<close> ends: with both fields (a \<open>permissions\<close>
  field that is missing or \<open>null\<close> is \<open>None\<close>, a missing \<open>role\<close> is
  \<open>JUndefined\<close>), or in the \<open>catch\<close> branch (network error, a status outside 2xx,
  a body that is \<open>null\<close>, so that reading a field of it throws).
\<close>

datatype fetch_outcome =
    Resolved "(string \<times> jsval) list option" jsval
  | Rejected

text \<open>
  \<open>loadPermissions\<close> is an async function: it runs up to the \<open>await\<close>, is suspended,
  and runs its remainder when the request settles. Without a token it finishes in
  its first part. The remainder calls \<open>setPermissions\<close>, \<open>setRole\<close> and, in
  \<open>finally\<close>, \<open>setLoading(false)\<close>; the model gives the store after the last of them.
\<close>

datatype load_phase = Finished permission_store | Awaiting permission_store

fun store_of :: "load_phase \<Rightarrow> permission_store" where
  "store_of (Finished st) = st"
| "store_of (Awaiting st) = st"

definition loadPermissions_until_await :: "storage \<Rightarrow> permission_store \<Rightarrow> load_phase" where
  "loadPermissions_until_await ls st =
     (if \<not> truthy_item (getItem ls ''token'')
      then Finished (st\<lparr>loading := False\<rparr>)
      else Awaiting st)"

fun loadPermissions_after_await :: "fetch_outcome \<Rightarrow> permission_store \<Rightarrow> permission_store" where
  "loadPermissions_after_await (Resolved p r) st =
     st\<lparr>permissions := p, role := r, loading := False\<rparr>"
| "loadPermissions_after_await Rejected st = st\<lparr>loading := False\<rparr>"

definition loadPermissions :: "storage \<Rightarrow> fetch_outcome \<Rightarrow> permission_store \<Rightarrow> permission_store" where
  "loadPermissions ls outcome st =
     (case loadPermissions_until_await ls st of
        Finished st' \<Rightarrow> st'
      | Awaiting st' \<Rightarrow> loadPermissions_after_await outcome st')"

text \<open>The context value exposes \<open>loadPermissions\<close> itself as \<open>refreshPermissions\<close>.\<close>

definition refreshPermissions :: "storage \<Rightarrow> fetch_outcome \<Rightarrow> permission_store \<Rightarrow> permission_store" where
  "refreshPermissions = loadPermissions"

text \<open>
  \<open>permissions[action] === true\<close>: the properties an object inherits are functions
  and objects, never the boolean \<open>true\<close>, so only own properties decide.
\<close>

definition hasPermission :: "permission_store \<Rightarrow> string \<Rightarrow> bool" where
  "hasPermission st action =
     (case permissions st of
        None \<Rightarrow> False
      | Some caps \<Rightarrow> map_of caps action = Some (JBool True))"

text \<open>
  \<open>Array.prototype.some\<close> and \<open>every\<close>, with the elements the callback was called
  on, in order, so that stopping early is visible.
\<close>

fun array_some :: "('a \<Rightarrow> bool) \<Rightarrow> 'a list \<Rightarrow> bool \<times> 'a list" where
  "array_some p [] = (False, [])"
| "array_some p (x # xs) =
     (if p x then (True, [x])
      else (fst (array_some p xs), x # snd (array_some p xs)))"

fun array_every :: "('a \<Rightarrow> bool) \<Rightarrow> 'a list \<Rightarrow> bool \<times> 'a list" where
  "array_every p [] = (True, [])"
| "array_every p (x # xs) =
     (if \<not> p x then (False, [x])
      else (fst (array_every p xs), x # snd (array_every p xs)))"

definition hasAnyPermission :: "permission_store \<Rightarrow> string list \<Rightarrow> bool" where
  "hasAnyPermission st actions = fst (array_some (hasPermission st) actions)"

definition hasAllPermissions :: "permission_store \<Rightarrow> string list \<Rightarrow> bool" where
  "hasAllPermissions st actions = fst (array_every (hasPermission st) actions)"

definition isAdmin :: "permission_store \<Rightarrow> bool" where
  "isAdmin st = (role st = JStr ''admin'')"

definition isHRManager :: "permission_store \<Rightarrow> bool" where
  "isHRManager st = (role st = JStr ''hr_manager'')"

definition isRecruiter :: "permission_store \<Rightarrow> bool" where
  "isRecruiter st = (role st = JStr ''recruiter'')"

subsection \<open>Reading the context\<close>

text \<open>
  \<open>createContext()\<close> has no default value, so \<open>useContext\<close> gives the value of the
  nearest enclosing provider, or \<open>undefined\<close> (\<open>None\<close>) when no ancestor is one. The
  ancestors of a component are listed from its parent up to the root.
\<close>

datatype ancestor = PermissionProvider permission_store | OtherComponent

fun useContext :: "ancestor list \<Rightarrow> permission_store option" where
  "useContext [] = None"
| "useContext (PermissionProvider v # _) = Some v"
| "useContext (OtherComponent # up) = useContext up"

fun is_provider :: "ancestor \<Rightarrow> bool" where
  "is_provider (PermissionProvider _) = True"
| "is_provider OtherComponent = False"

datatype js_error = Error string

definition usePermissions :: "ancestor list \<Rightarrow> js_error + permission_store" where
  "usePermissions up =
     (case useContext up of
        None \<Rightarrow> Inl (Error ''usePermissions must be used within PermissionProvider'')
      | Some context \<Rightarrow> Inr context)"

subsection \<open>The route wrapper\<close>

datatype 'p element = LoadingPlaceholder | AccessDenied | Component 'p

definition withPermission :: "string \<Rightarrow> ancestor list \<Rightarrow> 'p \<Rightarrow> js_error + 'p element" where
  "withPermission requiredPermission up props =
     (case usePermissions up of
        Inl e \<Rightarrow> Inl e
      | Inr st \<Rightarrow>
          Inr (if loading st then LoadingPlaceholder
               else if \<not> hasPermission st requiredPermission then AccessDenied
               else Component props))"

subsection \<open>Example stores\<close>

definition admin_store :: permission_store where
  "admin_store =
     \<lparr>permissions = Some [(''view_candidates'', JBool True), (''manage_users'', JBool True)],
      role = JStr ''admin'', loading = False\<rparr>"

definition recruiter_store :: permission_store where
  "recruiter_store =
     \<lparr>permissions = Some [(''view_candidates'', JBool True), (''manage_users'', JBool False)],
      role = JStr ''recruiter'', loading = False\<rparr>"

definition admin_payload :: fetch_outcome where
  "admin_payload =
     Resolved (Some [(''view_candidates'', JBool True), (''manage_users'', JBool True)])
       (JStr ''admin'')"

definition session_storage :: storage where
  "session_storage = [''token'' \<mapsto> ''abc'', ''user'' \<mapsto> ''{}'']"

section \<open>Live update channel (useWebSocket)\<close>

datatype ready_state = CONNECTING | OPEN | CLOSING | CLOSED

record websocket =
  url :: string
  readyState :: ready_state

text \<open>
  The three \<open>useState\<close> cells of one call of the hook. \<open>ws\<close> is \<open>null\<close> until
  \<open>onopen\<close> stores the socket (its position among the sockets constructed so far).
\<close>

record ws_hook =
  ws :: "nat option"
  isConnected :: bool
  lastMessage :: jsval


datatype hook_update = SetWs nat | SetIsConnected bool | SetLastMessage jsval



definition getToken :: "storage \<Rightarrow> string option" where
  "getToken ls = getItem ls ''token''"

text \<open>\<open>token || ''\<close>\<close>

fun token_or_empty :: "string option \<Rightarrow> string" where
  "token_or_empty None = []"
| "token_or_empty (Some t) = t"

text \<open>
  The body of the hook's effect (dependency list \<open>[]\<close>: run once per mount of the
  calling component). It constructs a socket and returns the socket list with its handle.
  \<open>wsUrl\<close> is the address derived from the build environment and \<open>encodeURIComponent\<close>
  the browser's function.
\<close>

definition useWebSocket_effect ::
    "string \<Rightarrow> (string \<Rightarrow> string) \<Rightarrow> storage \<Rightarrow> websocket list \<Rightarrow> websocket list \<times> nat" where
  "useWebSocket_effect wsUrl encodeURIComponent ls socks =
     (socks @ [\<lparr>url = wsUrl @ ''/ws?token='' @ encodeURIComponent (token_or_empty (getToken ls)),
                readyState = CONNECTING\<rparr>],
      length socks)"

text \<open>
  The handlers, as the state updates they make. \<open>onmessage\<close> receives the result of
  \<open>JSON.parse(event.data)\<close>, \<open>None\<close> when it throws.
\<close>

definition onopen :: "nat \<Rightarrow> hook_update list" where
  "onopen websocket = [SetIsConnected True, SetWs websocket]"


definition onclose :: "hook_update list" where
  "onclose = [SetIsConnected False]"

text \<open>The effect's cleanup: \<open>close()\<close> only on a socket that is open.\<close>

definition cleanup :: "nat option \<Rightarrow> websocket list \<Rightarrow> websocket list" where
  "cleanup websocket socks =
     (case websocket of
        None \<Rightarrow> socks
      | Some i \<Rightarrow>
          if i < length socks \<and> readyState (socks ! i) = OPEN
          then socks[i := (socks ! i)\<lparr>readyState := CLOSING\<rparr>]
          else socks)"

subsection \<open>Views and their hook instances\<close>

datatype page =
    LoginPage | ScreeningPage | CandidatesPage | MyNotesPage | UploadPage | JobsPage
  | MatchingPage | AnalyticsPage | BlacklistPage | ActivityPage | UsersPage

text \<open>The pages whose body calls \<open>useWebSocket()\<close>.\<close>

fun calls_useWebSocket :: "page \<Rightarrow> bool" where
  "calls_useWebSocket ScreeningPage = True"
| "calls_useWebSocket CandidatesPage = True"
| "calls_useWebSocket JobsPage = True"
| "calls_useWebSocket AnalyticsPage = True"
| "calls_useWebSocket BlacklistPage = True"
| "calls_useWebSocket ActivityPage = True"
| "calls_useWebSocket _ = False"

text \<open>
  A session: every socket constructed so far, and the mounted pages, each with the
  socket its own hook instance constructed.
\<close>

record session =
  sockets :: "websocket list"
  mounted :: "(page \<times> nat option) list"

definition empty_session :: session where
  "empty_session = \<lparr>sockets = [], mounted = []\<rparr>"

datatype session_event = Mount page | Unmount page | TransportOpen nat

fun unmount_page ::
    "page \<Rightarrow> (page \<times> nat option) list \<Rightarrow> websocket list \<Rightarrow> (page \<times> nat option) list \<times> websocket list" where
  "unmount_page p [] socks = ([], socks)"
| "unmount_page p ((q, w) # ms) socks =
     (if p = q then (ms, cleanup w socks)
      else ((q, w) # fst (unmount_page p ms socks), snd (unmount_page p ms socks)))"

definition session_step ::
    "string \<Rightarrow> (string \<Rightarrow> string) \<Rightarrow> storage \<Rightarrow> session \<Rightarrow> session_event \<Rightarrow> session" where
  "session_step wsUrl enc ls s ev =
     (case ev of
        Mount p \<Rightarrow>
          if calls_useWebSocket p
          then s\<lparr>sockets := fst (useWebSocket_effect wsUrl enc ls (sockets s)),
                 mounted := mounted s @ [(p, Some (snd (useWebSocket_effect wsUrl enc ls (sockets s))))]\<rparr>
          else s\<lparr>mounted := mounted s @ [(p, None)]\<rparr>
      | Unmount p \<Rightarrow>
          s\<lparr>sockets := snd (unmount_page p (mounted s) (sockets s)),
            mounted := fst (unmount_page p (mounted s) (sockets s))\<rparr>
      | TransportOpen i \<Rightarrow>
          if i < length (sockets s) \<and> readyState (sockets s ! i) = CONNECTING
          then s\<lparr>sockets := (sockets s)[i := (sockets s ! i)\<lparr>readyState := OPEN\<rparr>]\<rparr>
          else s)"

definition session_run ::
    "string \<Rightarrow> (string \<Rightarrow> string) \<Rightarrow> storage \<Rightarrow> session \<Rightarrow> session_event list \<Rightarrow> session" where
  "session_run wsUrl enc ls s evs = foldl (session_step wsUrl enc ls) s evs"

fun opens_connection :: "session_event \<Rightarrow> bool" where
  "opens_connection (Mount p) = calls_useWebSocket p"
| "opens_connection _ = False"

text \<open>The sockets that the hook instances of the mounted views hold, in mount order.\<close>

fun handles :: "(page \<times> nat option) list \<Rightarrow> nat list" where
  "handles [] = []"
| "handles ((p, None) # ms) = handles ms"
| "handles ((p, Some i) # ms) = i # handles ms"

text \<open>
  What holds of a session at every moment: the mounted views hold pairwise different
  sockets, each one a socket of the session, and a view holds one exactly when it calls
  the hook.
\<close>

definition session_ok :: "session \<Rightarrow> bool" where
  "session_ok s \<longleftrightarrow>
     distinct (handles (mounted s)) \<and>
     (\<forall>i \<in> set (handles (mounted s)). i < length (sockets s)) \<and>
     (\<forall>v \<in> set (mounted s). (snd v \<noteq> None) = calls_useWebSocket (fst v))"

text \<open>\<open>encodeURIComponent\<close> on a token of unreserved characters, which it leaves as it is.\<close>

definition encode_unreserved :: "string \<Rightarrow> string" where
  "encode_unreserved s = s"

subsection \<open>Subscribers\<close>




















section \<open>REST client (api)\<close>

record request_config =
  req_url :: string
  headers :: "string \<rightharpoonup> string"

text \<open>The request interceptor of \<open>api\<close>.\<close>

definition request_interceptor :: "storage \<Rightarrow> request_config \<Rightarrow> request_config" where
  "request_interceptor ls config =
     (case getItem ls ''token'' of
        None \<Rightarrow> config
      | Some token \<Rightarrow>
          if truthy_item (Some token)
          then config\<lparr>headers := (headers config)(''Authorization'' \<mapsto> ''Bearer '' @ token)\<rparr>
          else config)"

record browser =
  localStorage :: storage
  location_href :: string

text \<open>An axios error with \<open>error.response?.status\<close>: \<open>None\<close> when there is no response.\<close>

datatype axios_error = AxiosError "nat option"

text \<open>
  The rejection handler of the response interceptor; it always passes the error on
  (\<open>Promise.reject(error)\<close>).
\<close>

definition response_error_interceptor :: "axios_error \<Rightarrow> browser \<Rightarrow> browser \<times> axios_error" where
  "response_error_interceptor error b =
     (case error of
        AxiosError status \<Rightarrow>
          (if status = Some 401
           then b\<lparr>localStorage := removeItem (removeItem (localStorage b) ''token'') ''user'',
                  location_href := ''/login''\<rparr>
           else b,
           error))"

text \<open>
  A response of \<open>api\<close> by its status. Axios fulfils a status from 200 to 299 (the
  fulfilment handler returns the response as it is) and rejects any other with an error
  that carries the response.
\<close>

definition api_response :: "nat \<Rightarrow> browser \<Rightarrow> browser \<times> (axios_error + nat)" where
  "api_response status b =
     (if 200 \<le> status \<and> status < 300 then (b, Inr status)
      else (fst (response_error_interceptor (AxiosError (Some status)) b),
            Inl (snd (response_error_interceptor (AxiosError (Some status)) b))))"

text \<open>
  \<open>authApi\<close>, the instance behind \<open>login\<close> and \<open>register\<close>, has the same request
  interceptor and no response interceptor.
\<close>

definition authApi_request_interceptor :: "storage \<Rightarrow> request_config \<Rightarrow> request_config" where
  "authApi_request_interceptor ls config =
     (case getItem ls ''token'' of
        None \<Rightarrow> config
      | Some token \<Rightarrow>
          if truthy_item (Some token)
          then config\<lparr>headers := (headers config)(''Authorization'' \<mapsto> ''Bearer '' @ token)\<rparr>
          else config)"

definition authApi_response :: "nat \<Rightarrow> browser \<Rightarrow> browser \<times> (axios_error + nat)" where
  "authApi_response status b =
     (if 200 \<le> status \<and> status < 300 then (b, Inr status)
      else (b, Inl (AxiosError (Some status))))"

text \<open>
  \<open>ActivityPage.loadActivities\<close> does not use \<open>api\<close>: it calls the global \<open>axios\<close>,
  which has no interceptor, with a fixed host, builds the header itself from a template
  literal, and in its \<open>catch\<close> only logs. Its two state cells are the activities and
  the loading flag of the page.
\<close>

record activity_page =
  activities :: jsval
  activities_loading :: bool

definition initial_activity_page :: activity_page where
  "initial_activity_page = \<lparr>activities = JArr [], activities_loading = True\<rparr>"

definition loadActivities_request :: "storage \<Rightarrow> request_config" where
  "loadActivities_request ls =
     \<lparr>req_url = ''http://localhost:8000/api/activity'',
      headers = [''Authorization'' \<mapsto>
        ''Bearer '' @ (case getItem ls ''token'' of None \<Rightarrow> ''null'' | Some token \<Rightarrow> token)]\<rparr>"

text \<open>
  The remainder of \<open>loadActivities\<close> once the request has settled with a status and a
  body: the page state it sets, and the browser, which it does not touch.
\<close>

definition loadActivities_after_await ::
    "nat \<Rightarrow> jsval \<Rightarrow> activity_page \<Rightarrow> browser \<Rightarrow> activity_page \<times> browser" where
  "loadActivities_after_await status data pg b =
     (if 200 \<le> status \<and> status < 300
      then pg\<lparr>activities := data, activities_loading := False\<rparr>
      else pg\<lparr>activities_loading := False\<rparr>,
      b)"

definition logged_in_browser :: browser where
  "logged_in_browser = \<lparr>localStorage = session_storage, location_href = ''/screening''\<rparr>"

definition activity_browser :: browser where
  "activity_browser = \<lparr>localStorage = session_storage, location_href = ''/activity''\<rparr>"

definition json_request :: request_config where
  "json_request =
     \<lparr>req_url = ''/api/screening/batches'',
      headers = [''Content-Type'' \<mapsto> ''application/json'']\<rparr>"

section \<open>Properties of the permission store\<close>

lemma array_some_fst: "fst (array_some p xs) = (\<exists>x \<in> set xs. p x)"
  by (induction xs) auto

lemma array_every_fst: "fst (array_every p xs) = (\<forall>x \<in> set xs. p x)"
  by (induction xs) auto

lemma array_some_snd:
  "snd (array_some p xs) = takeWhile (\<lambda>x. \<not> p x) xs @ take 1 (dropWhile (\<lambda>x. \<not> p x) xs)"
  by (induction xs) auto

lemma array_every_snd:
  "snd (array_every p xs) = takeWhile p xs @ take 1 (dropWhile p xs)"
  by (induction xs) auto

text \<open>
  C4. \<open>hasPermission(action)\<close> is false when no capability set is loaded, when the key
  is absent from the loaded set, and when the key is mapped to anything other than the
  boolean \<open>true\<close>; it is true exactly when the loaded set maps the key to \<open>true\<close>.
\<close>

theorem hasPermission_explicit_true:
  "(permissions st = None \<longrightarrow> \<not> hasPermission st action) \<and>
   (\<forall>caps. permissions st = Some caps \<and> map_of caps action = None
      \<longrightarrow> \<not> hasPermission st action) \<and>
   (\<forall>caps v. permissions st = Some caps \<and> map_of caps action = Some v \<and> v \<noteq> JBool True
      \<longrightarrow> \<not> hasPermission st action) \<and>
   (hasPermission st action \<longleftrightarrow>
      (\<exists>caps. permissions st = Some caps \<and> map_of caps action = Some (JBool True)))"
  by (auto simp: hasPermission_def split: option.splits)

theorem hasPermission_explicit_true_witness:
  "\<not> hasPermission initial_store ''view_candidates'' \<and>
   \<not> hasPermission recruiter_store ''delete_candidate'' \<and>
   \<not> hasPermission recruiter_store ''manage_users'' \<and>
   hasPermission recruiter_store ''view_candidates''"
  using hasPermission_explicit_true [of initial_store "''view_candidates''"]
    hasPermission_explicit_true [of recruiter_store "''delete_candidate''"]
    hasPermission_explicit_true [of recruiter_store "''manage_users''"]
    hasPermission_explicit_true [of recruiter_store "''view_candidates''"]
  by (simp add: initial_store_def recruiter_store_def)

text \<open>
  C8. \<open>hasAnyPermission\<close> is the disjunction and \<open>hasAllPermissions\<close> the conjunction
  of \<open>hasPermission\<close> over the action list, and both stop early: the callback is called
  on the actions up to and including the first one that decides the result. With the
  capability set \<open>{view_candidates: true, manage_users: false}\<close>,
  \<open>hasAny(['manage_users','view_candidates'])\<close> is true and
  \<open>hasAll(['manage_users','view_candidates'])\<close> is false.
\<close>

theorem hasAny_hasAll_short_circuit:
  "hasAnyPermission st actions = (\<exists>a \<in> set actions. hasPermission st a) \<and>
   hasAllPermissions st actions = (\<forall>a \<in> set actions. hasPermission st a) \<and>
   snd (array_some (hasPermission st) actions) =
     takeWhile (\<lambda>a. \<not> hasPermission st a) actions @
     take 1 (dropWhile (\<lambda>a. \<not> hasPermission st a) actions) \<and>
   snd (array_every (hasPermission st) actions) =
     takeWhile (hasPermission st) actions @ take 1 (dropWhile (hasPermission st) actions) \<and>
   hasAnyPermission recruiter_store [''manage_users'', ''view_candidates''] \<and>
   \<not> hasAllPermissions recruiter_store [''manage_users'', ''view_candidates'']"
  by (simp add: hasAnyPermission_def hasAllPermissions_def array_some_fst array_every_fst
      array_some_snd array_every_snd hasPermission_def recruiter_store_def)

theorem hasAny_hasAll_short_circuit_witness:
  "hasAnyPermission recruiter_store [''view_candidates'', ''manage_users''] \<and>
   \<not> hasAllPermissions recruiter_store [''manage_users'', ''view_candidates''] \<and>
   snd (array_some (hasPermission recruiter_store) [''view_candidates'', ''manage_users''])
     = [''view_candidates''] \<and>
   snd (array_every (hasPermission recruiter_store) [''manage_users'', ''view_candidates''])
     = [''manage_users'']"
  using hasAny_hasAll_short_circuit [of recruiter_store "[''view_candidates'', ''manage_users'']"]
    hasAny_hasAll_short_circuit [of recruiter_store "[''manage_users'', ''view_candidates'']"]
  by (simp add: hasPermission_def recruiter_store_def)

text \<open>
  C9. On the empty action list, in every store state, \<open>hasAnyPermission([])\<close> is false
  and \<open>hasAllPermissions([])\<close> is true.
\<close>

theorem empty_action_list:
  "\<not> hasAnyPermission st [] \<and> hasAllPermissions st []"
  by (simp add: hasAnyPermission_def hasAllPermissions_def)

theorem empty_action_list_witness:
  "\<not> hasAnyPermission initial_store [] \<and> hasAllPermissions initial_store [] \<and>
   \<not> hasAnyPermission admin_store [] \<and> hasAllPermissions recruiter_store []"
  using empty_action_list [of initial_store] empty_action_list [of admin_store]
    empty_action_list [of recruiter_store]
  by simp

lemma useContext_no_provider: "\<forall>a \<in> set up. \<not> is_provider a \<Longrightarrow> useContext up = None"
proof (induction up)
  case Nil
  show ?case by simp
next
  case (Cons a up)
  then show ?case by (cases a) simp_all
qed

text \<open>
  C10. In a component none of whose ancestors is a \<open>PermissionProvider\<close>,
  \<open>usePermissions\<close> throws its error; it returns no store.
\<close>

theorem usePermissions_outside_provider:
  "\<forall>a \<in> set up. \<not> is_provider a \<Longrightarrow>
   usePermissions up = Inl (Error ''usePermissions must be used within PermissionProvider'')"
  by (simp add: usePermissions_def useContext_no_provider)

theorem usePermissions_outside_provider_witness:
  "usePermissions [OtherComponent, OtherComponent] =
     Inl (Error ''usePermissions must be used within PermissionProvider'') \<and>
   usePermissions [] = Inl (Error ''usePermissions must be used within PermissionProvider'')"
  using usePermissions_outside_provider [of "[OtherComponent, OtherComponent]"]
    usePermissions_outside_provider [of "[]"]
  by simp

text \<open>
  C7. Under a provider whose store is \<open>st\<close>, the wrapped page renders the loading
  placeholder while \<open>st\<close> is loading, the access-denied view when loading is over and
  \<open>hasPermission(requiredPermission)\<close> is false, and the protected component when it is
  true. The render is a function of the current store alone, so in no store state is
  the component rendered without \<open>hasPermission(requiredPermission)\<close> being true.
\<close>

theorem withPermission_gate:
  "useContext up = Some st \<Longrightarrow>
   (loading st \<longrightarrow> withPermission req up props = Inr LoadingPlaceholder) \<and>
   (\<not> loading st \<and> \<not> hasPermission st req \<longrightarrow> withPermission req up props = Inr AccessDenied) \<and>
   (\<not> loading st \<and> hasPermission st req \<longrightarrow> withPermission req up props = Inr (Component props)) \<and>
   (\<forall>q. withPermission req up props = Inr (Component q) \<longrightarrow> \<not> loading st \<and> hasPermission st req)"
  by (simp add: withPermission_def usePermissions_def)

theorem withPermission_gate_witness:
  "withPermission ''manage_users'' [OtherComponent, PermissionProvider initial_store] () =
     Inr LoadingPlaceholder \<and>
   withPermission ''manage_users'' [OtherComponent, PermissionProvider recruiter_store] () =
     Inr AccessDenied \<and>
   withPermission ''manage_users'' [OtherComponent, PermissionProvider admin_store] () =
     Inr (Component ())"
proof -
  have a: "useContext [OtherComponent, PermissionProvider initial_store] = Some initial_store"
    by simp
  have b: "useContext [OtherComponent, PermissionProvider recruiter_store] = Some recruiter_store"
    by simp
  have c: "useContext [OtherComponent, PermissionProvider admin_store] = Some admin_store"
    by simp
  show ?thesis
    using withPermission_gate [OF a, of "''manage_users''" "()"]
      withPermission_gate [OF b, of "''manage_users''" "()"]
      withPermission_gate [OF c, of "''manage_users''" "()"]
    by (simp add: initial_store_def recruiter_store_def admin_store_def hasPermission_def)
qed

text \<open>
  C1, as the specification states it, fails. \<open>loadPermissions\<close> never calls
  \<open>setLoading(true)\<close> and never clears \<open>permissions\<close>: a refresh started from the
  ready store of an administrator, with a token stored, is suspended at the \<open>await\<close>
  with the store as it was: not loading, and \<open>hasPermission('view_candidates')\<close> true.
\<close>

theorem refresh_from_ready_counterexample:
  "\<not> loading admin_store \<and>
   loadPermissions_until_await session_storage admin_store = Awaiting admin_store \<and>
   \<not> loading (store_of (loadPermissions_until_await session_storage admin_store)) \<and>
   hasPermission (store_of (loadPermissions_until_await session_storage admin_store))
     ''view_candidates''"
  by (simp add: loadPermissions_until_await_def session_storage_def getItem_def admin_store_def
      hasPermission_def)

text \<open>
  C1, amended. After a refresh is started from a ready store and before the fetch
  resolves, the store is unchanged: still ready, and \<open>hasPermission\<close> returns for every
  action what it returned before. During the first load, started from the initial store
  with a token stored, the store is loading until the fetch resolves and
  \<open>hasPermission\<close> is false for every action.
\<close>

theorem refresh_keeps_ready_store:
  "(\<not> loading st \<longrightarrow>
      store_of (loadPermissions_until_await ls st) = st \<and>
      \<not> loading (store_of (loadPermissions_until_await ls st)) \<and>
      (\<forall>a. hasPermission (store_of (loadPermissions_until_await ls st)) a = hasPermission st a)) \<and>
   (truthy_item (getItem ls ''token'') \<longrightarrow>
      loadPermissions_until_await ls initial_store = Awaiting initial_store \<and>
      loading initial_store \<and> (\<forall>a. \<not> hasPermission initial_store a))"
  by (cases st) (simp add: loadPermissions_until_await_def initial_store_def hasPermission_def)

theorem refresh_keeps_ready_store_witness:
  "store_of (loadPermissions_until_await session_storage admin_store) = admin_store \<and>
   hasPermission (store_of (loadPermissions_until_await session_storage admin_store)) ''manage_users'' \<and>
   loadPermissions_until_await session_storage initial_store = Awaiting initial_store \<and>
   \<not> hasPermission initial_store ''manage_users''"
proof -
  have r: "\<not> loading admin_store"
    by (simp add: admin_store_def)
  have t: "truthy_item (getItem session_storage ''token'')"
    by (simp add: session_storage_def getItem_def)
  have h: "hasPermission admin_store ''manage_users''"
    by (simp add: admin_store_def hasPermission_def)
  show ?thesis
    using refresh_keeps_ready_store [of admin_store session_storage] r t h by simp
qed

text \<open>
  C2, as the specification states it, fails. The \<open>catch\<close> branch only logs, so a
  failed fetch leaves \<open>permissions\<close> and \<open>role\<close> alone: after a successful load as
  administrator, a refresh whose fetch fails ends ready with the administrator's
  capability set, and \<open>isAdmin()\<close> is true.
\<close>

theorem failed_refresh_counterexample:
  "loadPermissions session_storage admin_payload initial_store = admin_store \<and>
   \<not> loading (refreshPermissions session_storage Rejected admin_store) \<and>
   isAdmin (refreshPermissions session_storage Rejected admin_store) \<and>
   permissions (refreshPermissions session_storage Rejected admin_store) =
     Some [(''view_candidates'', JBool True), (''manage_users'', JBool True)] \<and>
   hasPermission (refreshPermissions session_storage Rejected admin_store) ''manage_users''"
  by (simp add: refreshPermissions_def loadPermissions_def loadPermissions_until_await_def
      session_storage_def getItem_def admin_store_def admin_payload_def initial_store_def
      isAdmin_def hasPermission_def)

text \<open>
  C2, amended. If the permission fetch fails, the store becomes ready with the
  capability set and role it held before the fetch. After a failed first load the
  capability set is still unloaded, so \<open>hasPermission\<close> is false for every action, and
  \<open>isAdmin()\<close> is false; a capability set and role kept from an earlier successful load
  stay as they were.
\<close>

theorem failed_fetch_keeps_prior_state:
  "loadPermissions ls Rejected st = st\<lparr>loading := False\<rparr> \<and>
   \<not> loading (loadPermissions ls Rejected st) \<and>
   permissions (loadPermissions ls Rejected st) = permissions st \<and>
   role (loadPermissions ls Rejected st) = role st \<and>
   permissions (loadPermissions ls Rejected initial_store) = None \<and>
   (\<forall>a. \<not> hasPermission (loadPermissions ls Rejected initial_store) a) \<and>
   \<not> isAdmin (loadPermissions ls Rejected initial_store)"
  by (simp add: loadPermissions_def loadPermissions_until_await_def initial_store_def
      isAdmin_def hasPermission_def)

theorem failed_fetch_keeps_prior_state_witness:
  "loadPermissions session_storage Rejected recruiter_store = recruiter_store \<and>
   \<not> isAdmin (loadPermissions session_storage Rejected initial_store) \<and>
   \<not> hasPermission (loadPermissions session_storage Rejected initial_store) ''view_candidates''"
  using failed_fetch_keeps_prior_state [of session_storage recruiter_store]
  by (simp add: recruiter_store_def)

section \<open>Properties of the live update channel\<close>

lemma cleanup_length: "length (cleanup w socks) = length socks"
  by (simp add: cleanup_def split: option.splits)

lemma unmount_page_length: "length (snd (unmount_page p ms socks)) = length socks"
  by (induction ms) (auto simp: cleanup_length)

lemma session_step_sockets:
  "length (sockets (session_step w e ls s ev)) =
     length (sockets s) + (if opens_connection ev then 1 else 0)"
  by (cases ev) (simp_all add: session_step_def useWebSocket_effect_def unmount_page_length)

lemma handles_append: "handles (ms @ [(p, h)]) = handles ms @ (case h of None \<Rightarrow> [] | Some i \<Rightarrow> [i])"
  by (induction ms rule: handles.induct) (simp_all split: option.splits)

lemma unmount_page_mounted: "set (fst (unmount_page p ms socks)) \<subseteq> set ms"
  by (induction ms) (auto split: if_splits)

lemma unmount_page_handles: "set (handles (fst (unmount_page p ms socks))) \<subseteq> set (handles ms)"
  by (induction ms rule: handles.induct) auto

lemma unmount_page_distinct:
  "distinct (handles ms) \<Longrightarrow> distinct (handles (fst (unmount_page p ms socks)))"
proof (induction ms rule: handles.induct)
  case 1
  show ?case by simp
next
  case (2 q ms)
  then show ?case by simp
next
  case (3 q i ms)
  then show ?case
    using unmount_page_handles [of p ms socks] by auto
qed

lemma session_ok_empty: "session_ok empty_session"
  by (simp add: session_ok_def empty_session_def)

lemma session_ok_step: "session_ok s \<Longrightarrow> session_ok (session_step w e ls s ev)"
proof (cases ev)
  case (Mount p)
  assume "session_ok s"
  then show ?thesis
    using Mount
    by (auto simp: session_ok_def session_step_def useWebSocket_effect_def handles_append
        less_Suc_eq)
next
  case (Unmount p)
  assume ok: "session_ok s"
  show ?thesis
    unfolding session_ok_def
  proof (intro conjI)
    show "distinct (handles (mounted (session_step w e ls s ev)))"
      using ok Unmount by (simp add: session_ok_def session_step_def unmount_page_distinct)
    show "\<forall>i\<in>set (handles (mounted (session_step w e ls s ev))).
        i < length (sockets (session_step w e ls s ev))"
      using ok Unmount unmount_page_handles [of p "mounted s" "sockets s"]
      by (auto simp: session_ok_def session_step_def unmount_page_length)
    show "\<forall>v\<in>set (mounted (session_step w e ls s ev)).
        (snd v \<noteq> None) = calls_useWebSocket (fst v)"
      using ok Unmount unmount_page_mounted [of p "mounted s" "sockets s"]
      by (auto simp: session_ok_def session_step_def)
  qed
next
  case (TransportOpen i)
  assume "session_ok s"
  then show ?thesis
    using TransportOpen by (auto simp: session_ok_def session_step_def)
qed

lemma session_ok_run: "session_ok s \<Longrightarrow> session_ok (session_run w e ls s evs)"
  unfolding session_run_def
  by (induction evs arbitrary: s) (simp_all add: session_ok_step)

lemma session_run_sockets:
  "length (sockets (session_run w e ls s evs)) =
     length (sockets s) + length (filter opens_connection evs)"
  unfolding session_run_def
proof (induction evs arbitrary: s)
  case Nil
  show ?case by simp
next
  case (Cons ev evs)
  show ?case
    by (simp add: Cons.IH session_step_sockets)
qed

text \<open>
  C3, as the specification states it, fails. The socket is constructed in the effect of
  the hook, and every component that calls the hook has an instance of its own. After
  \<open>ScreeningPage\<close> is mounted one socket exists; mounting \<open>JobsPage\<close> as well makes
  two, and each page holds its own. Going from one page to the other before the first
  socket has opened leaves two sockets connecting, since the cleanup closes only an open
  socket. A session that has shown only \<open>UploadPage\<close> has none.
\<close>

theorem shared_connection_counterexample:
  "length (sockets (session_run ''ws://localhost:8000'' encode_unreserved session_storage
      empty_session [Mount ScreeningPage])) = 1 \<and>
   length (sockets (session_run ''ws://localhost:8000'' encode_unreserved session_storage
      empty_session [Mount ScreeningPage, Mount JobsPage])) = 2 \<and>
   mounted (session_run ''ws://localhost:8000'' encode_unreserved session_storage
      empty_session [Mount ScreeningPage, Mount JobsPage]) =
     [(ScreeningPage, Some 0), (JobsPage, Some 1)] \<and>
   map readyState (sockets (session_run ''ws://localhost:8000'' encode_unreserved session_storage
      empty_session [Mount ScreeningPage, Unmount ScreeningPage, Mount JobsPage]))
     = [CONNECTING, CONNECTING] \<and>
   sockets (session_run ''ws://localhost:8000'' encode_unreserved session_storage
      empty_session [Mount UploadPage]) = []"
  by (simp add: session_run_def session_step_def useWebSocket_effect_def empty_session_def
      cleanup_def)

text \<open>
  C3, amended. Every mount of a view that calls \<open>useWebSocket\<close> opens one connection
  of its own, and nothing else opens one: the number of connections a session has
  opened is the number of mounts of subscribing views so far, so a session that has
  mounted no subscribing view has opened none. Connections are not shared: the mounted
  views that call the hook hold pairwise different sockets of the session, and the
  other views hold none.
\<close>

theorem one_connection_per_subscribing_mount:
  "length (sockets (session_run w e ls s evs)) =
     length (sockets s) + length (filter opens_connection evs) \<and>
   (filter opens_connection evs = [] \<longrightarrow> sockets (session_run w e ls empty_session evs) = []) \<and>
   distinct (handles (mounted (session_run w e ls empty_session evs))) \<and>
   (\<forall>i \<in> set (handles (mounted (session_run w e ls empty_session evs))).
      i < length (sockets (session_run w e ls empty_session evs))) \<and>
   (\<forall>v \<in> set (mounted (session_run w e ls empty_session evs)).
      (snd v \<noteq> None) = calls_useWebSocket (fst v))"
proof (intro conjI)
  have ok: "session_ok (session_run w e ls empty_session evs)"
    by (rule session_ok_run [OF session_ok_empty])
  show "length (sockets (session_run w e ls s evs)) =
      length (sockets s) + length (filter opens_connection evs)"
    by (rule session_run_sockets)
  show "filter opens_connection evs = [] \<longrightarrow>
      sockets (session_run w e ls empty_session evs) = []"
    using session_run_sockets [of w e ls empty_session evs] by (auto simp: empty_session_def)
  show "distinct (handles (mounted (session_run w e ls empty_session evs)))"
    using ok by (simp add: session_ok_def)
  show "\<forall>i \<in> set (handles (mounted (session_run w e ls empty_session evs))).
      i < length (sockets (session_run w e ls empty_session evs))"
    using ok by (simp add: session_ok_def)
  show "\<forall>v \<in> set (mounted (session_run w e ls empty_session evs)).
      (snd v \<noteq> None) = calls_useWebSocket (fst v)"
    using ok by (simp add: session_ok_def)
qed

theorem one_connection_per_subscribing_mount_witness:
  "length (sockets (session_run ''ws://localhost:8000'' encode_unreserved session_storage
      empty_session [Mount UploadPage, Mount ScreeningPage, Mount JobsPage])) = 2 \<and>
   mounted (session_run ''ws://localhost:8000'' encode_unreserved session_storage
      empty_session [Mount UploadPage, Mount ScreeningPage, Mount JobsPage]) =
     [(UploadPage, None), (ScreeningPage, Some 0), (JobsPage, Some 1)] \<and>
   distinct (handles (mounted (session_run ''ws://localhost:8000'' encode_unreserved session_storage
      empty_session [Mount UploadPage, Mount ScreeningPage, Mount JobsPage]))) \<and>
   sockets (session_run ''ws://localhost:8000'' encode_unreserved session_storage
      empty_session [Mount UploadPage, Mount MatchingPage]) = []"
proof -
  have m: "mounted (session_run ''ws://localhost:8000'' encode_unreserved session_storage
      empty_session [Mount UploadPage, Mount ScreeningPage, Mount JobsPage]) =
     [(UploadPage, None), (ScreeningPage, Some 0), (JobsPage, Some 1)]"
    by (simp add: session_run_def session_step_def useWebSocket_effect_def empty_session_def)
  have f: "filter opens_connection [Mount UploadPage, Mount MatchingPage] = []"
    by simp
  show ?thesis
    using one_connection_per_subscribing_mount [of "''ws://localhost:8000''" encode_unreserved
        session_storage empty_session "[Mount UploadPage, Mount ScreeningPage, Mount JobsPage]"]
      one_connection_per_subscribing_mount [of "''ws://localhost:8000''" encode_unreserved
        session_storage empty_session "[Mount UploadPage, Mount MatchingPage]"]
      m f
    by (simp add: empty_session_def)
qed





section \<open>Properties of the REST client\<close>

text \<open>
  What the \<open>api\<close> instance does: a request leaves its request interceptor with the
  header \<open>Authorization: Bearer <token>\<close> whenever a token, a non-empty string, is
  stored under \<open>token\<close>. A response with status 401 removes \<open>token\<close> and \<open>user\<close>
  from the storage and sets the location to \<open>/login\<close>; the error is still passed on
  to the caller.
\<close>

lemma api_interceptors:
  "(\<forall>token. getItem (localStorage b) ''token'' = Some token \<and> token \<noteq> [] \<longrightarrow>
      headers (request_interceptor (localStorage b) config) ''Authorization'' =
        Some (''Bearer '' @ token)) \<and>
   getItem (localStorage (fst (api_response 401 b))) ''token'' = None \<and>
   getItem (localStorage (fst (api_response 401 b))) ''user'' = None \<and>
   location_href (fst (api_response 401 b)) = ''/login'' \<and>
   snd (api_response 401 b) = Inl (AxiosError (Some 401))"
  by (simp add: request_interceptor_def api_response_def response_error_interceptor_def
      getItem_def removeItem_def)

lemma api_interceptors_at_login:
  "headers (request_interceptor (localStorage logged_in_browser) json_request) ''Authorization'' =
     Some ''Bearer abc'' \<and>
   getItem (localStorage logged_in_browser) ''token'' = Some ''abc'' \<and>
   getItem (localStorage (fst (api_response 401 logged_in_browser))) ''token'' = None \<and>
   location_href (fst (api_response 401 logged_in_browser)) = ''/login''"
proof -
  have t: "getItem (localStorage logged_in_browser) ''token'' = Some ''abc''"
    by (simp add: logged_in_browser_def session_storage_def getItem_def)
  show ?thesis
    using api_interceptors [of logged_in_browser json_request] t by simp
qed

text \<open>
  \<open>authApi\<close> attaches the token as \<open>api\<close> does; its 401 changes nothing in the
  browser. Without a stored token \<open>ActivityPage\<close> sends \<open>Bearer null\<close>.
\<close>

lemma authApi_unauthorized:
  "fst (authApi_response 401 b) = b \<and> snd (authApi_response 401 b) = Inl (AxiosError (Some 401))"
  by (simp add: authApi_response_def)

lemma loadActivities_without_token:
  "headers (loadActivities_request Map.empty) ''Authorization'' = Some ''Bearer null''"
  by (simp add: loadActivities_request_def getItem_def)

text \<open>
  C6. Every REST request is to carry the stored token, and every response with status
  401 is to remove the stored credential and profile and lead to the login view. The
  request of \<open>ActivityPage.loadActivities\<close> does not pass through \<open>api\<close>. With the
  token \<open>abc\<close> stored it sends \<open>Bearer abc\<close> itself, but a 401 to it leaves
  \<open>token\<close>, \<open>user\<close> and the location \<open>/activity\<close> as they were, where the same
  response through \<open>api\<close> removes both and goes to \<open>/login\<close>.
\<close>

theorem loadActivities_unauthorized_keeps_session:
  "headers (loadActivities_request (localStorage activity_browser)) ''Authorization'' =
     Some ''Bearer abc'' \<and>
   snd (loadActivities_after_await 401 JNull initial_activity_page activity_browser) =
     activity_browser \<and>
   getItem (localStorage (snd (loadActivities_after_await 401 JNull initial_activity_page
     activity_browser))) ''token'' = Some ''abc'' \<and>
   getItem (localStorage (snd (loadActivities_after_await 401 JNull initial_activity_page
     activity_browser))) ''user'' = Some ''{}'' \<and>
   location_href (snd (loadActivities_after_await 401 JNull initial_activity_page
     activity_browser)) = ''/activity'' \<and>
   getItem (localStorage (fst (api_response 401 activity_browser))) ''token'' = None \<and>
   getItem (localStorage (fst (api_response 401 activity_browser))) ''user'' = None \<and>
   location_href (fst (api_response 401 activity_browser)) = ''/login''"
  by (simp add: loadActivities_request_def loadActivities_after_await_def activity_browser_def
      session_storage_def getItem_def removeItem_def api_response_def
      response_error_interceptor_def)

end
